theory Spec2Isabelle
  imports Main "HOL-Library.Sublist" "HOL-Library.Word"
begin

section \<open>Command-line option matching of \<open>include/minizinc/utils.hh\<close>\<close>

text \<open>
  The development embeds \<open>CLOParser::getOption\<close>, the helpers it calls
  (\<open>assign_string\<close>, the string comparison it shares with \<open>beginswith\<close>) and the
  comparison operators of \<open>SemanticVersion\<close>.

  A \<open>std::string\<close> is a \<open>string\<close> (a list of bytes). The cursor \<open>_i\<close> is a C++
  \<open>int\<close>, modelled as \<open>int\<close>: the only arithmetic on it is \<open>_i++\<close> and \<open>--_i\<close>,
  and \<open>_i++\<close> is reached only below \<open>_argv.size()\<close>. The pointer \<open>pResult\<close> is an
  \<open>option\<close>: \<open>None\<close> is \<open>nullptr\<close>, \<open>Some v\<close> is a pointer to a cell that
  holds \<open>v\<close>. The template parameter \<open>Value\<close> is a record of the two operations the
  template instantiates at that type.
\<close>

subsection \<open>Strings and string streams\<close>

text \<open>
  \<open>s.compare(0, n, t) == 0\<close>: the substring of \<open>s\<close> that starts at 0 and has length
  \<open>min n (size s)\<close> is equal to \<open>t\<close>. Position 0 is never out of range.
\<close>

definition compare_is_0 :: "string \<Rightarrow> nat \<Rightarrow> string \<Rightarrow> bool" where
  "compare_is_0 s n t \<longleftrightarrow> take n s = t"

definition beginswith :: "string \<Rightarrow> string \<Rightarrow> bool" where
  "beginswith s t \<longleftrightarrow> compare_is_0 s (length t) t"

text \<open>White space of the classic locale, which the stream extractors skip.\<close>

definition isspace :: "char \<Rightarrow> bool" where
  "isspace c \<longleftrightarrow>
     c = CHR '' '' \<or> c = CHR 0x09 \<or> c = CHR 0x0A \<or> c = CHR 0x0B \<or> c = CHR 0x0C \<or> c = CHR 0x0D"

definition nonspace :: "char \<Rightarrow> bool" where
  "nonspace c \<longleftrightarrow> (if isspace c then False else True)"

text \<open>
  \<open>iss >> keyword\<close> for a \<open>std::string\<close>: skip white space, then read up to the next
  white space or the end. It fails (\<open>None\<close>) when no character is left; otherwise it
  gives the word and the rest of the stream.
\<close>

definition read_word :: "string \<Rightarrow> (string \<times> string) option" where
  "read_word s =
     (let s1 = dropWhile isspace s
      in if s1 = [] then None else Some (takeWhile nonspace s1, dropWhile nonspace s1))"

text \<open>
  The words that the loop \<open>while (iss >> keyword)\<close> reads from
  \<open>std::istringstream iss(names)\<close>, in the order it reads them.
\<close>

function keyword_list :: "string \<Rightarrow> string list" where
  "keyword_list s =
     (case read_word s of None \<Rightarrow> [] | Some (w, rest) \<Rightarrow> w # keyword_list rest)"
  by pat_completeness auto
termination
proof (relation "measure length")
  show "wf (measure length)" by simp
next
  fix s :: string and x w rest
  assume a: "read_word s = Some x" "(w, rest) = x"
  define s1 where "s1 = dropWhile isspace s"
  from a have ne: "s1 \<noteq> []" and r: "rest = dropWhile nonspace s1"
    by (auto simp: read_word_def s1_def Let_def split: if_splits)
  from ne obtain c cs where s1: "s1 = c # cs" by (cases s1) auto
  have "\<not> isspace c"
    using hd_dropWhile [of isspace s] ne s1 by (simp add: s1_def)
  then have "nonspace c" by (simp add: nonspace_def)
  then have "length rest \<le> length cs"
    by (simp add: r s1 length_dropWhile_le)
  also have "length cs < length s1" by (simp add: s1)
  also have "length s1 \<le> length s" by (simp add: s1_def length_dropWhile_le)
  finally show "(rest, s) \<in> measure length" by simp
qed

declare keyword_list.simps [simp del]

subsection \<open>Value types\<close>

text \<open>
  The two operations that \<open>getOption\<close> instantiates at the type \<open>Value\<close>:
  \<open>assign_string(pResult, arg)\<close> gives \<open>Some v\<close> when it returns true after storing
  \<open>v\<close>, and \<open>None\<close> when it returns false; \<open>iss >> tmp\<close> on a stream over the value
  text gives \<open>Some (tmp, rest)\<close>, where \<open>rest\<close> is what the stream has not read, or
  \<open>None\<close> when the stream fails.
\<close>

record 'v value_type =
  assign_string :: "string \<Rightarrow> 'v option"
  read_value :: "string \<Rightarrow> ('v \<times> string) option"

text \<open>The primary template of \<open>assign_string\<close> returns false and stores nothing.\<close>

definition assign_string_generic :: "string \<Rightarrow> 'v option" where
  "assign_string_generic s = None"

text \<open>The specialisation for \<open>std::string\<close> stores the text and returns true.\<close>

definition assign_string_string :: "string \<Rightarrow> string option" where
  "assign_string_string s = Some s"

definition isdigit :: "char \<Rightarrow> bool" where
  "isdigit c \<longleftrightarrow> 48 \<le> (of_char c :: nat) \<and> (of_char c :: nat) \<le> 57"

definition digit_value :: "char \<Rightarrow> int" where
  "digit_value c = int (of_char c) - 48"

definition decimal :: "string \<Rightarrow> int" where
  "decimal ds = foldl (\<lambda>n c. 10 * n + digit_value c) 0 ds"

text \<open>
  Modelled from the spec: the extraction \<open>iss >> tmp\<close> for \<open>Value = int\<close> is the
  standard library's and not part of the source; the spec calls it the type's standard
  textual numeric conversion. Leading white space is skipped, one sign is accepted, the
  longest run of decimal digits is read and what follows stays in the stream. The
  stream fails when there is no digit, or when the number is not a 32-bit \<open>int\<close>.
\<close>

definition extract_int :: "string \<Rightarrow> (int \<times> string) option" where
  "extract_int s =
     (let s1 = dropWhile isspace s;
          neg = (case s1 of [] \<Rightarrow> False | c # cs \<Rightarrow> c = CHR ''-'');
          s2 = (case s1 of [] \<Rightarrow> [] | c # cs \<Rightarrow> if c = CHR ''-'' \<or> c = CHR ''+'' then cs else s1);
          ds = takeWhile isdigit s2;
          n = (if neg then - decimal ds else decimal ds)
      in if ds = [] then None
         else if n < - (2 ^ 31) \<or> 2 ^ 31 - 1 < n then None
         else Some (n, dropWhile isdigit s2))"

text \<open>\<open>iss >> tmp\<close> for \<open>Value = std::string\<close> reads one word.\<close>

definition extract_string :: "string \<Rightarrow> (string \<times> string) option" where
  "extract_string s = read_word s"

definition int_value :: "int value_type" where
  "int_value = \<lparr>assign_string = assign_string_generic, read_value = extract_int\<rparr>"

definition string_value :: "string value_type" where
  "string_value = \<lparr>assign_string = assign_string_string, read_value = extract_string\<rparr>"

subsection \<open>\<open>CLOParser::getOption\<close>\<close>

datatype error = AssertionFailed

datatype 'a step = Continue | Return 'a

text \<open>
  The result of a call that returns: the returned \<open>bool\<close>, the cursor \<open>_i\<close> after the
  call, and \<open>pResult\<close> with the contents of its cell after the call.
\<close>

type_synonym 'v outcome = "bool \<times> int \<times> 'v option"

text \<open>
  \<open>_i >= _argv.size()\<close> compares an \<open>int\<close> with a \<open>size_t\<close>: the \<open>int\<close> is converted
  to unsigned, so a negative cursor becomes larger than every size.
\<close>

definition cursor_at_end :: "int \<Rightarrow> string list \<Rightarrow> bool" where
  "cursor_at_end i argv \<longleftrightarrow> (if i < 0 then True else length argv \<le> nat i)"

text \<open>The condition of the first \<open>continue\<close>; \<open>||\<close> and \<open>&&\<close> short-circuit.\<close>

definition skip_keyword :: "string \<Rightarrow> string \<Rightarrow> 'v option \<Rightarrow> bool" where
  "skip_keyword arg keyword pResult \<longleftrightarrow>
     (if (2 < length keyword \<or> pResult = None) \<and> arg \<noteq> keyword then True
      else if compare_is_0 arg (length keyword) keyword then False else True)"

text \<open>
  From \<open>assert(pResult)\<close> to the end of the loop body: the value text \<open>arg\<close> is
  converted and stored. \<open>i\<close> is the cursor at this point. The stream over the value
  text is a local that is not looked at again after \<open>iss >> tmp\<close>.
\<close>

definition store_value ::
  "'v value_type \<Rightarrow> int \<Rightarrow> bool \<Rightarrow> string \<Rightarrow> 'v option \<Rightarrow> bool \<Rightarrow> error + 'v outcome" where
  "store_value T i combinedArg arg pResult fValueOptional =
     (case pResult of
        None \<Rightarrow> Inl AssertionFailed
      | Some old \<Rightarrow>
          (case assign_string T arg of
             Some v \<Rightarrow> Inr (True, i, Some v)
           | None \<Rightarrow>
               (case read_value T arg of
                  None \<Rightarrow> Inr (fValueOptional, if combinedArg then i else i - 1, Some old)
                | Some (tmp, rest) \<Rightarrow> Inr (True, i, Some tmp))))"

text \<open>
  The loop body after the first \<open>continue\<close> (``Process it''). The local \<open>arg\<close> is
  changed only on paths that return, so every iteration sees the token at the cursor.
\<close>

definition process_keyword ::
  "'v value_type \<Rightarrow> string list \<Rightarrow> int \<Rightarrow> string \<Rightarrow> string \<Rightarrow> 'v option \<Rightarrow> bool
     \<Rightarrow> (error + 'v outcome) step" where
  "process_keyword T argv i arg keyword pResult fValueOptional =
     (if length keyword < length arg then
        (if pResult = None then Continue
         else Return (store_value T i True (drop (length keyword) arg) pResult fValueOptional))
      else
        (if pResult = None then Return (Inr (True, i, pResult))
         else if cursor_at_end (i + 1) argv then Return (Inr (fValueOptional, i + 1 - 1, pResult))
         else Return (store_value T (i + 1) False (argv ! nat (i + 1)) pResult fValueOptional)))"

fun getOption_loop ::
  "'v value_type \<Rightarrow> string list \<Rightarrow> int \<Rightarrow> string \<Rightarrow> string list \<Rightarrow> 'v option \<Rightarrow> bool
     \<Rightarrow> error + 'v outcome" where
  "getOption_loop T argv i arg [] pResult fValueOptional = Inr (False, i, pResult)"
| "getOption_loop T argv i arg (keyword # rest) pResult fValueOptional =
     (if skip_keyword arg keyword pResult
      then getOption_loop T argv i arg rest pResult fValueOptional
      else (case process_keyword T argv i arg keyword pResult fValueOptional of
              Continue \<Rightarrow> getOption_loop T argv i arg rest pResult fValueOptional
            | Return r \<Rightarrow> r))"

text \<open>The two assertions on \<open>names\<close>, which abort the program when they fail.\<close>

definition names_asserted :: "string \<Rightarrow> bool" where
  "names_asserted names \<longleftrightarrow> CHR '','' \<notin> set names \<and> CHR '';'' \<notin> set names"

definition getOption ::
  "'v value_type \<Rightarrow> string list \<Rightarrow> int \<Rightarrow> string \<Rightarrow> 'v option \<Rightarrow> bool \<Rightarrow> error + 'v outcome" where
  "getOption T argv i names pResult fValueOptional =
     (if names_asserted names then
        (if cursor_at_end i argv then Inr (False, i, pResult)
         else getOption_loop T argv i (argv ! nat i) (keyword_list names) pResult fValueOptional)
      else Inl AssertionFailed)"

text \<open>
  The first candidate that the loop does not skip at its first \<open>continue\<close>, if any.
\<close>

definition matched_keyword :: "string \<Rightarrow> string list \<Rightarrow> 'v option \<Rightarrow> string option" where
  "matched_keyword arg kws pResult = find (\<lambda>k. \<not> skip_keyword arg k pResult) kws"

text \<open>
  The matching rule as the specification words it, to be compared with
  \<open>skip_keyword\<close>: a short keyword with a value slot is compared as a prefix, every
  other keyword exactly.
\<close>

definition spec_matches :: "string \<Rightarrow> string \<Rightarrow> 'v option \<Rightarrow> bool" where
  "spec_matches arg keyword pResult \<longleftrightarrow>
     (if length keyword \<le> 2 \<and> pResult \<noteq> None then prefix keyword arg else arg = keyword)"

text \<open>
  A caller that probes the same option \<open>n + 1\<close> times in a row, each call starting
  from the cursor and the slot the call before left; the result is the last call's.
\<close>

fun getOption_repeat ::
  "nat \<Rightarrow> 'v value_type \<Rightarrow> string list \<Rightarrow> int \<Rightarrow> string \<Rightarrow> 'v option \<Rightarrow> bool
     \<Rightarrow> error + 'v outcome" where
  "getOption_repeat 0 T argv i names pResult fValueOptional =
     getOption T argv i names pResult fValueOptional"
| "getOption_repeat (Suc n) T argv i names pResult fValueOptional =
     (case getOption T argv i names pResult fValueOptional of
        Inl e \<Rightarrow> Inl e
      | Inr (r, i', pResult') \<Rightarrow> getOption_repeat n T argv i' names pResult' fValueOptional)"

subsection \<open>\<open>SemanticVersion\<close>\<close>

record SemanticVersion =
  major :: "32 word"
  minor :: "32 word"
  patch :: "32 word"

text \<open>\<open>operator<\<close>: three tests in sequence, each returning true.\<close>

definition sv_less :: "SemanticVersion \<Rightarrow> SemanticVersion \<Rightarrow> bool" where
  "sv_less v other =
     (if major v < major other then True
      else if minor v < minor other then True
      else if patch v < patch other then True
      else False)"

text \<open>\<open>operator<=\<close>: three tests in sequence, each returning false.\<close>

definition sv_less_eq :: "SemanticVersion \<Rightarrow> SemanticVersion \<Rightarrow> bool" where
  "sv_less_eq v other =
     (if major v > major other then False
      else if minor v > minor other then False
      else if patch v > patch other then False
      else True)"

definition sv_eq :: "SemanticVersion \<Rightarrow> SemanticVersion \<Rightarrow> bool" where
  "sv_eq v other \<longleftrightarrow> major v = major other \<and> minor v = minor other \<and> patch v = patch other"

text \<open>
  The lexicographic order on the triple (major, minor, patch), as the specification
  words it; the operators above are compared with it.
\<close>

definition lex_less :: "SemanticVersion \<Rightarrow> SemanticVersion \<Rightarrow> bool" where
  "lex_less v other \<longleftrightarrow>
     major v < major other \<or>
     (major v = major other \<and>
       (minor v < minor other \<or> (minor v = minor other \<and> patch v < patch other)))"

definition lex_less_eq :: "SemanticVersion \<Rightarrow> SemanticVersion \<Rightarrow> bool" where
  "lex_less_eq v other \<longleftrightarrow> lex_less v other \<or> sv_eq v other"

section \<open>Properties\<close>

subsection \<open>Auxiliary facts\<close>

lemma compare_is_0_prefix:
  "compare_is_0 arg (length keyword) keyword \<longleftrightarrow> prefix keyword arg"
  unfolding compare_is_0_def prefix_def
  by (metis append_eq_conv_conj append_take_drop_id)

lemma beginswith_prefix: "beginswith s t \<longleftrightarrow> prefix t s"
  by (simp add: beginswith_def compare_is_0_prefix)

lemma not_skip_keyword:
  "\<not> skip_keyword arg keyword pResult \<longleftrightarrow>
     (if length keyword \<le> 2 \<and> pResult \<noteq> None then prefix keyword arg else arg = keyword)"
  by (auto simp: skip_keyword_def compare_is_0_prefix)

lemma process_keyword_returns:
  "\<not> skip_keyword arg keyword pResult \<Longrightarrow>
     \<exists>r. process_keyword T argv i arg keyword pResult f = Return r"
  by (auto simp: process_keyword_def not_skip_keyword split: if_splits)

text \<open>The loop returns what the body returns at the first candidate it does not skip.\<close>

lemma getOption_loop_find:
  "getOption_loop T argv i arg kws pResult f =
     (case find (\<lambda>k. \<not> skip_keyword arg k pResult) kws of
        None \<Rightarrow> Inr (False, i, pResult)
      | Some k \<Rightarrow> (case process_keyword T argv i arg k pResult f of
                    Return r \<Rightarrow> r | Continue \<Rightarrow> Inr (False, i, pResult)))"
proof (induction kws)
  case Nil
  show ?case by simp
next
  case (Cons k kws)
  show ?case
  proof (cases "skip_keyword arg k pResult")
    case True
    with Cons show ?thesis by simp
  next
    case False
    from process_keyword_returns [OF False, of T argv i f]
    obtain r where "process_keyword T argv i arg k pResult f = Return r" by blast
    with False show ?thesis by simp
  qed
qed

lemma keyword_list_a_abbrev: "keyword_list ''-a -abbrev'' = [''-a'', ''-abbrev'']"
  by code_simp

lemma keyword_list_a: "keyword_list ''-a'' = [''-a'']"
  by code_simp

lemma names_asserted_a_abbrev: "names_asserted ''-a -abbrev''"
  by (simp add: names_asserted_def)

lemma names_asserted_a: "names_asserted ''-a''"
  by (simp add: names_asserted_def)

lemma extract_int_5: "extract_int ''5'' = Some (5, [])"
  by (simp add: extract_int_def isspace_def isdigit_def decimal_def digit_value_def)

lemma extract_int_5x: "extract_int ''5x'' = Some (5, ''x'')"
  by (simp add: extract_int_def isspace_def isdigit_def decimal_def digit_value_def)

lemma extract_int_x: "extract_int ''x'' = None"
  by (simp add: extract_int_def isspace_def isdigit_def decimal_def digit_value_def)

lemma extract_int_notanumber: "extract_int ''notanumber'' = None"
  by (simp add: extract_int_def isspace_def isdigit_def decimal_def digit_value_def)

lemmas getOption_unfold =
  getOption_def cursor_at_end_def skip_keyword_def compare_is_0_def process_keyword_def
  store_value_def int_value_def assign_string_generic_def

text \<open>
  A call that reaches the loop and finds a candidate returns what the loop body returns
  at that candidate; a call that finds none returns false and changes nothing.
\<close>

lemma getOption_matched:
  assumes "names_asserted names" and "\<not> cursor_at_end i argv"
    and "matched_keyword (argv ! nat i) (keyword_list names) pResult = Some kw"
  shows "process_keyword T argv i (argv ! nat i) kw pResult f
           = Return (getOption T argv i names pResult f)"
proof -
  from assms(3) have ns: "\<not> skip_keyword (argv ! nat i) kw pResult"
    by (auto simp: matched_keyword_def find_Some_iff)
  from process_keyword_returns [OF ns, of T argv i f]
  obtain r where r: "process_keyword T argv i (argv ! nat i) kw pResult f = Return r" by blast
  from assms r show ?thesis
    by (simp add: getOption_def getOption_loop_find matched_keyword_def)
qed

lemma getOption_unmatched:
  assumes "names_asserted names" and "\<not> cursor_at_end i argv"
    and "matched_keyword (argv ! nat i) (keyword_list names) pResult = None"
  shows "getOption T argv i names pResult f = Inr (False, i, pResult)"
  using assms by (simp add: getOption_def getOption_loop_find matched_keyword_def)

lemma getOption_at_end:
  assumes "names_asserted names" and "cursor_at_end i argv"
  shows "getOption T argv i names pResult f = Inr (False, i, pResult)"
  using assms by (simp add: getOption_def)

lemma store_value_False:
  "store_value T j c txt pResult f = Inr (False, i', p') \<Longrightarrow>
     i' = (if c then j else j - 1) \<and> p' = pResult"
  by (auto simp: store_value_def split: option.splits if_splits)

lemma process_keyword_False:
  "process_keyword T argv i arg kw pResult f = Return (Inr (False, i', p')) \<Longrightarrow>
     i' = i \<and> p' = pResult"
  by (auto simp: process_keyword_def split: if_splits dest!: store_value_False)

lemma getOption_False:
  assumes "getOption T argv i names pResult f = Inr (False, i', p')"
  shows "i' = i \<and> p' = pResult"
proof -
  from assms have na: "names_asserted names"
    by (auto simp: getOption_def split: if_splits)
  show ?thesis
  proof (cases "cursor_at_end i argv")
    case True
    with na assms show ?thesis by (simp add: getOption_def)
  next
    case False
    show ?thesis
    proof (cases "matched_keyword (argv ! nat i) (keyword_list names) pResult")
      case None
      from getOption_unmatched [OF na False None, of T f] assms show ?thesis by simp
    next
      case (Some kw)
      from getOption_matched [OF na False Some, of T f] assms
      have "process_keyword T argv i (argv ! nat i) kw pResult f = Return (Inr (False, i', p'))"
        by simp
      then show ?thesis by (rule process_keyword_False)
    qed
  qed
qed

lemma getOption_repeat_False:
  "getOption T argv i names pResult f = Inr (False, i, pResult) \<Longrightarrow>
     getOption_repeat n T argv i names pResult f = Inr (False, i, pResult)"
  by (induction n) auto

text \<open>
  The cursor after a call is the cursor before it, or the next position, which is then
  an index of the token sequence: the model's \<open>int\<close> never leaves the range of the
  C++ \<open>int\<close> when the sequence has at most \<open>INT_MAX\<close> tokens.
\<close>

lemma store_value_cursor:
  "store_value T j c txt pResult f = Inr (r, i', p') \<Longrightarrow>
     i' = j \<or> (i' = j - 1 \<and> \<not> c)"
  by (auto simp: store_value_def split: option.splits if_splits)

lemma process_keyword_cursor:
  "process_keyword T argv i arg kw pResult f = Return (Inr (r, i', p')) \<Longrightarrow>
     i' = i \<or> (i' = i + 1 \<and> (if cursor_at_end (i + 1) argv then False else True))"
  by (auto simp: process_keyword_def split: if_splits dest!: store_value_cursor)

lemma getOption_cursor:
  assumes "getOption T argv i names pResult f = Inr (r, i', p')"
  shows "i' = i \<or> (i' = i + 1 \<and> 0 \<le> i \<and> nat (i + 1) < length argv)"
proof -
  from assms have na: "names_asserted names"
    by (auto simp: getOption_def split: if_splits)
  show ?thesis
  proof (cases "cursor_at_end i argv")
    case True
    with na assms show ?thesis by (simp add: getOption_def)
  next
    case False
    then have i0: "0 \<le> i" by (simp add: cursor_at_end_def split: if_splits)
    show ?thesis
    proof (cases "matched_keyword (argv ! nat i) (keyword_list names) pResult")
      case None
      from getOption_unmatched [OF na False None, of T f] assms show ?thesis by simp
    next
      case (Some kw)
      from getOption_matched [OF na False Some, of T f] assms
      have "process_keyword T argv i (argv ! nat i) kw pResult f = Return (Inr (r, i', p'))"
        by simp
      from process_keyword_cursor [OF this] i0 show ?thesis
        by (auto simp: cursor_at_end_def split: if_splits)
    qed
  qed
qed

lemma cursor_at_end_simps:
  "cursor_at_end 0 [] = True" "cursor_at_end 0 [a] = False" "cursor_at_end 1 [a] = True"
  "cursor_at_end 0 [a, b] = False" "cursor_at_end 1 [a, b] = False"
  by (simp_all add: cursor_at_end_def)

lemmas concrete_unfold =
  getOption_unfold names_asserted_a_abbrev names_asserted_a keyword_list_a_abbrev keyword_list_a
  extract_int_5 extract_int_5x extract_int_x extract_int_notanumber matched_keyword_def

text \<open>
  The tokenizer on the spellings string: white space separates, and the words come out
  in the order in which they stand in the string.
\<close>

lemma read_word_Nil: "read_word [] = None"
  by (simp add: read_word_def)

lemma read_word_space: "isspace sep \<Longrightarrow> read_word (sep # s) = read_word s"
  by (simp add: read_word_def)

lemma read_word_word:
  assumes "w \<noteq> []" and "\<forall>c\<in>set w. \<not> isspace c"
  shows "read_word w = Some (w, [])"
    and "isspace sep \<Longrightarrow> read_word (w @ sep # s) = Some (w, sep # s)"
proof -
  from assms(1) obtain a as where w: "w = a # as" by (cases w) auto
  with assms(2) have a: "\<not> isspace a" by simp
  from assms(2) have ns: "\<forall>c\<in>set w. nonspace c" by (simp add: nonspace_def)
  then have tw: "takeWhile nonspace w = w" and dw: "dropWhile nonspace w = []" by simp_all
  from a have d: "dropWhile isspace (w @ t) = w @ t" for t by (simp add: w)
  from d [of "[]"] assms(1) tw dw show "read_word w = Some (w, [])"
    by (simp add: read_word_def)
  assume "isspace sep"
  then have "\<not> nonspace sep" by (simp add: nonspace_def)
  with ns have "takeWhile nonspace (w @ sep # s) = w" "dropWhile nonspace (w @ sep # s) = sep # s"
    by (simp_all add: takeWhile_append2 dropWhile_append2)
  with d [of "sep # s"] assms(1) show "read_word (w @ sep # s) = Some (w, sep # s)"
    by (simp add: read_word_def)
qed

lemma keyword_list_Nil: "keyword_list [] = []"
  by (simp add: keyword_list.simps [of "[]"] read_word_Nil)

lemma keyword_list_space: "isspace sep \<Longrightarrow> keyword_list (sep # s) = keyword_list s"
  by (simp add: keyword_list.simps [of "sep # s"] keyword_list.simps [of s] read_word_space)

lemma keyword_list_word:
  assumes "w \<noteq> []" and "\<forall>c\<in>set w. \<not> isspace c"
  shows "keyword_list w = [w]"
    and "isspace sep \<Longrightarrow> keyword_list (w @ sep # s) = w # keyword_list s"
proof -
  show "keyword_list w = [w]"
    by (simp add: keyword_list.simps [of w] read_word_word(1) [OF assms] keyword_list_Nil)
  assume sp: "isspace sep"
  then show "keyword_list (w @ sep # s) = w # keyword_list s"
    by (simp add: keyword_list.simps [of "w @ sep # s"] read_word_word(2) [OF assms sp]
        keyword_list_space)
qed

lemma isspace_blank: "isspace CHR '' ''"
  by (simp add: isspace_def)

lemma keyword_list_words:
  "\<forall>w\<in>set ws. w \<noteq> [] \<and> (\<forall>c\<in>set w. \<not> isspace c) \<Longrightarrow>
     keyword_list (concat (map (\<lambda>w. CHR '' '' # w) ws)) = ws"
proof (induction ws)
  case Nil
  show ?case by (simp add: keyword_list_Nil)
next
  case (Cons w ws)
  then have w: "w \<noteq> []" "\<forall>c\<in>set w. \<not> isspace c"
    and ih: "keyword_list (concat (map (\<lambda>w. CHR '' '' # w) ws)) = ws"
    by simp_all
  show ?case
  proof (cases ws)
    case Nil
    with w show ?thesis by (simp add: keyword_list_space isspace_blank keyword_list_word(1))
  next
    case (Cons w' ws')
    then obtain r where r: "concat (map (\<lambda>w. CHR '' '' # w) ws) = CHR '' '' # r" by simp
    with ih have "keyword_list r = ws" by (simp add: keyword_list_space isspace_blank)
    with w r show ?thesis
      by (simp add: keyword_list_space isspace_blank keyword_list_word(2))
  qed
qed

lemma spec_matches_skip: "spec_matches arg keyword pResult \<longleftrightarrow> \<not> skip_keyword arg keyword pResult"
  by (simp add: spec_matches_def not_skip_keyword)

lemma find_equal_member: "x \<in> set xs \<Longrightarrow> find (\<lambda>k. x = k) xs = Some x"
  by (induction xs) auto

lemma digits_then_nondigit:
  assumes "dropWhile isdigit ds = []" and "\<not> isdigit c"
  shows "takeWhile isdigit (ds @ c # cs) = ds \<and> dropWhile isdigit (ds @ c # cs) = c # cs
    \<and> takeWhile isdigit ds = ds"
proof -
  from assms(1) have all: "\<forall>x\<in>set ds. isdigit x"
    by (simp add: dropWhile_eq_Nil_conv)
  with assms(2) show ?thesis
    by (simp add: takeWhile_append2 dropWhile_append2)
qed

lemma extract_int_append:
  assumes "extract_int s = Some (v, [])" and "\<not> isdigit c"
  shows "extract_int (s @ c # cs) = Some (v, c # cs)"
proof -
  define s1 where "s1 = dropWhile isspace s"
  have ne: "s1 \<noteq> []"
  proof
    assume "s1 = []"
    then have "extract_int s = None"
      by (simp add: extract_int_def s1_def [symmetric] Let_def)
    with assms(1) show False by simp
  qed
  then obtain a as where s1: "dropWhile isspace s = a # as"
    unfolding s1_def by (cases "dropWhile isspace s") auto
  have "hd s1 \<in> set s" using ne set_dropWhileD [of "hd s1" isspace s] by (simp add: s1_def)
  moreover have "\<not> isspace (hd s1)" using ne hd_dropWhile [of isspace s] by (simp add: s1_def)
  ultimately have app: "dropWhile isspace (s @ c # cs) = a # as @ c # cs"
    by (simp add: s1_def s1 dropWhile_append1)
  define s2 where "s2 = (if a = CHR ''-'' \<or> a = CHR ''+'' then as else a # as)"
  define fin where "fin = (\<lambda>ds unread.
     let n = (if a = CHR ''-'' then - decimal ds else decimal ds)
     in if ds = [] then None
        else if n < - (2 ^ 31) \<or> 2 ^ 31 - 1 < n then None
        else Some (n, unread :: string))"
  have e1: "extract_int s = fin (takeWhile isdigit s2) (dropWhile isdigit s2)"
    by (simp add: extract_int_def s1 s2_def fin_def Let_def)
  have e2: "extract_int (s @ c # cs)
      = fin (takeWhile isdigit (s2 @ c # cs)) (dropWhile isdigit (s2 @ c # cs))"
    by (simp add: extract_int_def app s2_def fin_def Let_def)
  from assms(1) e1 have r: "dropWhile isdigit s2 = []"
    by (auto simp: fin_def Let_def split: if_splits)
  note d = digits_then_nondigit [OF r assms(2), of cs]
  from assms(1) e1 d have "fin s2 [] = Some (v, [])" by (simp add: r)
  then have "fin s2 (c # cs) = Some (v, c # cs)"
    by (auto simp: fin_def Let_def split: if_splits)
  with e2 d show ?thesis by simp
qed

subsection \<open>Separate-form value capture\<close>

text \<open>
  Claim C1 states that with spellings \<open>-a -abbrev\<close>, an integer slot, the tokens
  \<open>-a\<close>, \<open>5\<close> and the cursor at 0, the match succeeds, the slot receives 5 and the
  cursor advances to 2. The code increments the cursor once, to the value token: the
  call leaves it at 1, so the claim as stated does not hold.
\<close>

theorem separate_value_cursor_is_not_2:
  "getOption int_value [''-a'', ''5''] 0 ''-a -abbrev'' (Some 0) False = Inr (True, 1, Some 5)
   \<and> getOption int_value [''-a'', ''5''] 0 ''-a -abbrev'' (Some 0) False \<noteq> Inr (True, 2, Some 5)"
  by (simp add: getOption_unfold names_asserted_a_abbrev keyword_list_a_abbrev extract_int_5)

text \<open>
  Claim C1, amended: with spellings \<open>-a -abbrev\<close>, an integer slot, the tokens \<open>-a\<close>,
  \<open>5\<close> and the cursor at 0, the match succeeds, the slot receives 5 and the cursor
  advances to 1, the position of the consumed value token; this holds whatever the slot
  held before and whatever \<open>fValueOptional\<close> is.
\<close>

theorem separate_value_capture:
  "getOption int_value [''-a'', ''5''] 0 ''-a -abbrev'' (Some old) fValueOptional
     = Inr (True, 1, Some 5)"
  by (simp add: getOption_unfold names_asserted_a_abbrev keyword_list_a_abbrev extract_int_5)

subsection \<open>Combined form with an unparseable value\<close>

text \<open>
  Claim C2 states that a combined-form match with a non-string slot whose value text
  does not convert fails, whatever \<open>fValueOptional\<close> is, with the cursor at the option
  token and the slot untouched. The code returns \<open>fValueOptional\<close> on this path: with
  the token \<open>-ax\<close>, the spelling \<open>-a\<close>, an integer slot and an optional value the call
  returns true, although \<open>x\<close> does not convert.
\<close>

theorem combined_unparseable_value_can_succeed:
  "getOption int_value [''-ax''] 0 ''-a'' (Some 0) True = Inr (True, 0, Some 0)
   \<and> extract_int ''x'' = None"
  by (simp add: concrete_unfold)

text \<open>
  Claim C2, amended: when the first matching keyword is strictly shorter than the
  current token, the slot is of a non-string type and the rest of the token does not
  convert, the call returns \<open>fValueOptional\<close> (so it fails exactly when the value is
  mandatory); the cursor stays at the option token and the slot is untouched.
\<close>

theorem combined_unparseable_value:
  assumes "names_asserted names" and "\<not> cursor_at_end i argv"
    and "matched_keyword (argv ! nat i) (keyword_list names) (Some old) = Some kw"
    and "length kw < length (argv ! nat i)"
    and "assign_string T = assign_string_generic"
    and "read_value T (drop (length kw) (argv ! nat i)) = None"
  shows "getOption T argv i names (Some old) fValueOptional = Inr (fValueOptional, i, Some old)"
  using getOption_matched [OF assms(1-3), of T fValueOptional] assms(4-6)
  by (simp add: process_keyword_def store_value_def assign_string_generic_def)

text \<open>
  The amended claim at the token \<open>-ax\<close>: true with an optional value, false with a
  mandatory one.
\<close>

theorem combined_unparseable_value_witness:
  "names_asserted ''-a'' \<and> \<not> cursor_at_end 0 [''-ax'']
   \<and> matched_keyword ([''-ax''] ! nat 0) (keyword_list ''-a'') (Some (0::int)) = Some ''-a''
   \<and> length ''-a'' < length ([''-ax''] ! nat 0)
   \<and> assign_string int_value = assign_string_generic
   \<and> read_value int_value (drop (length ''-a'') ([''-ax''] ! nat 0)) = None
   \<and> getOption int_value [''-ax''] 0 ''-a'' (Some 0) True = Inr (True, 0, Some 0)
   \<and> getOption int_value [''-ax''] 0 ''-a'' (Some 0) False = Inr (False, 0, Some 0)"
proof -
  have 1: "names_asserted ''-a''" by (rule names_asserted_a)
  have 2: "\<not> cursor_at_end 0 [''-ax'']" by (simp add: cursor_at_end_simps)
  have 3: "matched_keyword ([''-ax''] ! nat 0) (keyword_list ''-a'') (Some (0::int)) = Some ''-a''"
    by (simp add: matched_keyword_def keyword_list_a skip_keyword_def compare_is_0_def)
  have 4: "length ''-a'' < length ([''-ax''] ! nat 0)" by simp
  have 5: "assign_string int_value = assign_string_generic" by (simp add: int_value_def)
  have 6: "read_value int_value (drop (length ''-a'') ([''-ax''] ! nat 0)) = None"
    by (simp add: int_value_def extract_int_x)
  from 1 2 3 4 5 6 combined_unparseable_value [OF 1 2 3 4 5 6]
  show ?thesis by simp
qed

subsection \<open>Failed calls change nothing\<close>

text \<open>
  Claim C3: whenever the call returns false, the cursor is what it was before the call
  and the slot is unmodified. This covers the call with the cursor at or past the end
  and the call where no candidate matches, which both return false; and a caller that
  repeats a failed call any number of times gets false every time, with the cursor and
  the slot still unchanged.
\<close>

theorem failed_match_is_noop:
  "(names_asserted names \<and> cursor_at_end i argv \<longrightarrow>
      getOption T argv i names pResult f = Inr (False, i, pResult))
   \<and> (names_asserted names \<and> \<not> cursor_at_end i argv
        \<and> matched_keyword (argv ! nat i) (keyword_list names) pResult = None \<longrightarrow>
      getOption T argv i names pResult f = Inr (False, i, pResult))
   \<and> (getOption T argv i names pResult f = Inr (False, i', pResult') \<longrightarrow>
      i' = i \<and> pResult' = pResult
      \<and> getOption_repeat n T argv i names pResult f = Inr (False, i, pResult))"
proof (intro conjI impI)
  assume "names_asserted names \<and> cursor_at_end i argv"
  then show "getOption T argv i names pResult f = Inr (False, i, pResult)"
    by (simp add: getOption_at_end)
next
  assume "names_asserted names \<and> \<not> cursor_at_end i argv
    \<and> matched_keyword (argv ! nat i) (keyword_list names) pResult = None"
  then show "getOption T argv i names pResult f = Inr (False, i, pResult)"
    by (simp add: getOption_unmatched)
next
  assume a: "getOption T argv i names pResult f = Inr (False, i', pResult')"
  from getOption_False [OF a] show "i' = i" and "pResult' = pResult" by simp_all
  with a show "getOption_repeat n T argv i names pResult f = Inr (False, i, pResult)"
    by (simp add: getOption_repeat_False)
qed

text \<open>
  Claim C3 on an empty token sequence, on a token that no candidate matches, and on a
  keyword whose value token does not convert (the cursor is stepped forward and back),
  repeated four times.
\<close>

theorem failed_match_is_noop_witness:
  "getOption int_value [] 0 ''-a'' (Some 7) False = Inr (False, 0, Some 7)
   \<and> getOption int_value [''-b''] 0 ''-a'' (Some 7) False = Inr (False, 0, Some 7)
   \<and> getOption int_value [''-a'', ''x''] 0 ''-a'' (Some 7) False = Inr (False, 0, Some 7)
   \<and> getOption_repeat 3 int_value [''-a'', ''x''] 0 ''-a'' (Some 7) False
       = Inr (False, 0, Some 7)"
proof -
  note inst = failed_match_is_noop [where T = int_value and names = "''-a''" and i = 0
      and pResult = "Some 7" and f = False]
  have 1: "getOption int_value [] 0 ''-a'' (Some 7) False = Inr (False, 0, Some 7)"
    using inst [where argv = "[]", THEN conjunct1]
    by (simp add: names_asserted_a cursor_at_end_simps)
  have "matched_keyword ([''-b''] ! nat 0) (keyword_list ''-a'') (Some (7::int)) = None"
    by (simp add: matched_keyword_def keyword_list_a skip_keyword_def compare_is_0_def)
  then have 2: "getOption int_value [''-b''] 0 ''-a'' (Some 7) False = Inr (False, 0, Some 7)"
    using inst [where argv = "[''-b'']", THEN conjunct2, THEN conjunct1]
    by (simp add: names_asserted_a cursor_at_end_simps)
  have 3: "getOption int_value [''-a'', ''x''] 0 ''-a'' (Some 7) False = Inr (False, 0, Some 7)"
    by (simp add: concrete_unfold)
  have 4: "getOption_repeat 3 int_value [''-a'', ''x''] 0 ''-a'' (Some 7) False
       = Inr (False, 0, Some 7)"
    using inst [where argv = "[''-a'', ''x'']" and i' = 0 and pResult' = "Some 7" and n = 3,
        THEN conjunct2, THEN conjunct2] 3
    by simp
  from 1 2 3 4 show ?thesis by simp
qed

subsection \<open>Combined form\<close>

text \<open>
  Claim C4: for a candidate strictly shorter than the current token, the loop body
  rejects it when no slot was supplied and goes on with the next candidate; when a slot
  was supplied and the candidate is the first match, the value text is the token with
  the keyword prefix removed, and the cursor is the same after the call whether the
  text is assigned, converted or refused. With spellings \<open>-a -abbrev\<close>, an integer slot
  and the current token \<open>-a5\<close> the call succeeds with 5 in the slot and the cursor
  unchanged.
\<close>

theorem combined_form:
  "(length keyword < length arg \<longrightarrow>
      process_keyword T argv i arg keyword None f = Continue
      \<and> getOption_loop T argv i arg (keyword # rest) None f
          = getOption_loop T argv i arg rest None f)
   \<and> (names_asserted names \<and> \<not> cursor_at_end i argv
        \<and> matched_keyword (argv ! nat i) (keyword_list names) (Some old) = Some kw
        \<and> length kw < length (argv ! nat i) \<longrightarrow>
      argv ! nat i = kw @ drop (length kw) (argv ! nat i)
      \<and> getOption T argv i names (Some old) f =
          Inr (case assign_string T (drop (length kw) (argv ! nat i)) of
                 Some v \<Rightarrow> (True, i, Some v)
               | None \<Rightarrow>
                   (case read_value T (drop (length kw) (argv ! nat i)) of
                      Some (v, unread) \<Rightarrow> (True, i, Some v)
                    | None \<Rightarrow> (f, i, Some old))))
   \<and> (\<not> cursor_at_end i argv \<and> argv ! nat i = ''-a5'' \<longrightarrow>
      getOption int_value argv i ''-a -abbrev'' (Some old') f = Inr (True, i, Some 5))"
proof (intro conjI impI)
  assume "length keyword < length arg"
  then show "process_keyword T argv i arg keyword None f = Continue"
    by (simp add: process_keyword_def)
  then show "getOption_loop T argv i arg (keyword # rest) None f
      = getOption_loop T argv i arg rest None f"
    by simp
next
  assume a: "names_asserted names \<and> \<not> cursor_at_end i argv
    \<and> matched_keyword (argv ! nat i) (keyword_list names) (Some old) = Some kw
    \<and> length kw < length (argv ! nat i)"
  then have "\<not> skip_keyword (argv ! nat i) kw (Some old)"
    by (auto simp: matched_keyword_def find_Some_iff)
  then have "prefix kw (argv ! nat i)"
    by (simp add: not_skip_keyword split: if_splits)
  then show "argv ! nat i = kw @ drop (length kw) (argv ! nat i)"
    by (auto simp: prefix_def)
  from a have "process_keyword T argv i (argv ! nat i) kw (Some old) f
           = Return (getOption T argv i names (Some old) f)"
    by (simp add: getOption_matched)
  with a show "getOption T argv i names (Some old) f =
          Inr (case assign_string T (drop (length kw) (argv ! nat i)) of
                 Some v \<Rightarrow> (True, i, Some v)
               | None \<Rightarrow>
                   (case read_value T (drop (length kw) (argv ! nat i)) of
                      Some (v, unread) \<Rightarrow> (True, i, Some v)
                    | None \<Rightarrow> (f, i, Some old)))"
    by (auto simp: process_keyword_def store_value_def split: option.splits)
next
  assume "\<not> cursor_at_end i argv \<and> argv ! nat i = ''-a5''"
  then show "getOption int_value argv i ''-a -abbrev'' (Some old') f = Inr (True, i, Some 5)"
    by (simp add: getOption_def names_asserted_a_abbrev keyword_list_a_abbrev skip_keyword_def
        compare_is_0_def process_keyword_def store_value_def int_value_def
        assign_string_generic_def extract_int_5)
qed

text \<open>
  Claim C4 at the token \<open>-a5\<close> without a slot, at \<open>-Ggecode\<close> with a string slot, and
  at \<open>-a5\<close> in second position with an integer slot.
\<close>

theorem combined_form_witness:
  "process_keyword int_value [''-a5''] 0 ''-a5'' ''-a'' None False = Continue
   \<and> getOption_loop int_value [''-a5''] 0 ''-a5'' [''-a'', ''-a5''] None False
       = getOption_loop int_value [''-a5''] 0 ''-a5'' [''-a5''] None False
   \<and> getOption string_value [''-Ggecode''] 0 ''-G'' (Some []) False
       = Inr (True, 0, Some ''gecode'')
   \<and> getOption int_value [''x'', ''-a5''] 1 ''-a -abbrev'' (Some 0) False = Inr (True, 1, Some 5)"
proof -
  have 1: "process_keyword int_value [''-a5''] 0 ''-a5'' ''-a'' None False = Continue
   \<and> getOption_loop int_value [''-a5''] 0 ''-a5'' [''-a'', ''-a5''] None False
       = getOption_loop int_value [''-a5''] 0 ''-a5'' [''-a5''] None False"
    using combined_form [where keyword = "''-a''" and arg = "''-a5''" and T = int_value
        and argv = "[''-a5'']" and i = 0 and f = False and rest = "[''-a5'']", THEN conjunct1]
    by simp
  have kw: "keyword_list ''-G'' = [''-G'']" by code_simp
  have na: "names_asserted ''-G''" by (simp add: names_asserted_def)
  have m: "matched_keyword ([''-Ggecode''] ! nat 0) (keyword_list ''-G'') (Some ([]::string))
      = Some ''-G''"
    by (simp add: matched_keyword_def kw skip_keyword_def compare_is_0_def)
  have 2: "getOption string_value [''-Ggecode''] 0 ''-G'' (Some []) False
       = Inr (True, 0, Some ''gecode'')"
    using combined_form [where names = "''-G''" and T = string_value
        and argv = "[''-Ggecode'']" and i = 0 and f = False and old = "[]" and kw = "''-G''",
        THEN conjunct2, THEN conjunct1] na m
    by (simp add: cursor_at_end_def string_value_def assign_string_string_def)
  have 3: "getOption int_value [''x'', ''-a5''] 1 ''-a -abbrev'' (Some 0) False
      = Inr (True, 1, Some 5)"
    using combined_form [where argv = "[''x'', ''-a5'']" and i = 1 and f = False and old' = 0,
        THEN conjunct2, THEN conjunct2]
    by (simp add: cursor_at_end_def)
  from 1 2 3 show ?thesis by simp
qed

subsection \<open>Keyword matching\<close>

text \<open>
  Claim C5: a candidate of length at most 2 with a slot supplied matches exactly when
  the current token starts with it; a longer candidate, or any candidate without a
  slot, matches exactly when the token is equal to it; so the test of the code is the
  matching rule of the specification. The candidates are tried in the order in which
  they appear in the spellings string and the first match decides: the call returns
  what the loop body returns at the first matching candidate of the candidate list,
  and false without any change when there is none; and the candidate list is the
  sequence of the words of the spellings string, from left to right: white space
  before a word is skipped, a word followed by white space is the head of the list and
  the words after it are the tail, and blank-separated words give exactly the list of
  these words.
\<close>

theorem keyword_matching:
  "(spec_matches arg keyword pResult \<longleftrightarrow> \<not> skip_keyword arg keyword pResult)
   \<and> (length keyword \<le> 2 \<and> pResult \<noteq> None \<longrightarrow>
        (\<not> skip_keyword arg keyword pResult \<longleftrightarrow> prefix keyword arg))
   \<and> (2 < length keyword \<or> pResult = None \<longrightarrow>
        (\<not> skip_keyword arg keyword pResult \<longleftrightarrow> arg = keyword))
   \<and> (names_asserted names \<and> \<not> cursor_at_end i argv \<longrightarrow>
        (case find (\<lambda>k. spec_matches (argv ! nat i) k pResult) (keyword_list names) of
           None \<Rightarrow> getOption T argv i names pResult f = Inr (False, i, pResult)
         | Some k \<Rightarrow>
             process_keyword T argv i (argv ! nat i) k pResult f
               = Return (getOption T argv i names pResult f)))
   \<and> keyword_list [] = []
   \<and> (isspace sep \<longrightarrow> keyword_list (sep # s) = keyword_list s)
   \<and> (w \<noteq> [] \<and> (\<forall>c\<in>set w. \<not> isspace c) \<longrightarrow>
        keyword_list w = [w]
        \<and> (isspace sep \<longrightarrow> keyword_list (w @ sep # s) = w # keyword_list s))
   \<and> ((\<forall>w\<in>set ws. w \<noteq> [] \<and> (\<forall>c\<in>set w. \<not> isspace c)) \<longrightarrow>
        keyword_list (concat (map (\<lambda>w. CHR '' '' # w) ws)) = ws)"
proof (intro conjI impI)
  show "spec_matches arg keyword pResult \<longleftrightarrow> \<not> skip_keyword arg keyword pResult"
    by (rule spec_matches_skip)
next
  assume "length keyword \<le> 2 \<and> pResult \<noteq> None"
  then show "\<not> skip_keyword arg keyword pResult \<longleftrightarrow> prefix keyword arg"
    by (simp add: not_skip_keyword)
next
  assume "2 < length keyword \<or> pResult = None"
  then show "\<not> skip_keyword arg keyword pResult \<longleftrightarrow> arg = keyword"
    by (auto simp: not_skip_keyword)
next
  assume a: "names_asserted names \<and> \<not> cursor_at_end i argv"
  have eq: "find (\<lambda>k. spec_matches (argv ! nat i) k pResult) (keyword_list names)
      = matched_keyword (argv ! nat i) (keyword_list names) pResult"
    by (simp add: matched_keyword_def spec_matches_skip)
  show "case find (\<lambda>k. spec_matches (argv ! nat i) k pResult) (keyword_list names) of
           None \<Rightarrow> getOption T argv i names pResult f = Inr (False, i, pResult)
         | Some k \<Rightarrow>
             process_keyword T argv i (argv ! nat i) k pResult f
               = Return (getOption T argv i names pResult f)"
  proof (cases "matched_keyword (argv ! nat i) (keyword_list names) pResult")
    case None
    with a eq show ?thesis by (simp add: getOption_unmatched)
  next
    case (Some k)
    with a eq show ?thesis by (simp add: getOption_matched)
  qed
next
  show "keyword_list [] = []" by (rule keyword_list_Nil)
next
  assume "isspace sep"
  then show "keyword_list (sep # s) = keyword_list s" by (rule keyword_list_space)
next
  assume a: "w \<noteq> [] \<and> (\<forall>c\<in>set w. \<not> isspace c)"
  then show "keyword_list w = [w]" by (simp add: keyword_list_word(1))
  assume "isspace sep"
  with a show "keyword_list (w @ sep # s) = w # keyword_list s"
    by (simp add: keyword_list_word(2))
next
  assume "\<forall>w\<in>set ws. w \<noteq> [] \<and> (\<forall>c\<in>set w. \<not> isspace c)"
  then show "keyword_list (concat (map (\<lambda>w. CHR '' '' # w) ws)) = ws"
    by (rule keyword_list_words)
qed

text \<open>
  Claim C5 on concrete tokens. With the token \<open>-a5\<close> and an integer slot, the spellings
  \<open>-b -c -a\<close> are decided by the third candidate. The spellings \<open>-b -a -\<close> and
  \<open>-b - -a\<close> hold the same candidates, of which \<open>-a\<close> and \<open>-\<close> both match: the one that
  stands first in the string decides, so the first call stores 5 and the second fails
  on the text \<open>a5\<close>. The token \<open>-abbrev\<close> with spellings \<open>-a -abbrev\<close> is taken by the
  first candidate \<open>-a\<close> as a combined form, and fails; with the spellings in the other
  order the candidate \<open>-abbrev\<close> is first and takes the next token as its value.
\<close>

theorem keyword_matching_witness:
  "spec_matches ''-a5'' ''-a'' (Some (0::int)) \<and> \<not> skip_keyword ''-a5'' ''-a'' (Some (0::int))
   \<and> prefix ''-a'' ''-a5''
   \<and> skip_keyword ''-abbrev5'' ''-abbrev'' (Some (0::int))
   \<and> skip_keyword ''-a5'' ''-a'' (None :: int option)
   \<and> keyword_list ''-b -c -a'' = [''-b'', ''-c'', ''-a'']
   \<and> keyword_list ''-b -a -'' = [''-b'', ''-a'', ''-'']
   \<and> keyword_list ''-b - -a'' = [''-b'', ''-'', ''-a'']
   \<and> getOption int_value [''-a5''] 0 ''-b -c -a'' (Some 0) False = Inr (True, 0, Some 5)
   \<and> getOption int_value [''-a5''] 0 ''-b -a -'' (Some 0) False = Inr (True, 0, Some 5)
   \<and> getOption int_value [''-a5''] 0 ''-b - -a'' (Some 0) False = Inr (False, 0, Some 0)
   \<and> getOption int_value [''-abbrev'', ''5''] 0 ''-a -abbrev'' (Some 0) False
       = Inr (False, 0, Some 0)
   \<and> getOption int_value [''-abbrev'', ''5''] 0 ''-abbrev -a'' (Some 0) False
       = Inr (True, 1, Some 5)
   \<and> getOption int_value [''-b''] 0 ''-a -abbrev'' (Some 0) False = Inr (False, 0, Some 0)"
proof -
  have p: "prefix ''-a'' ''-a5''" by (simp add: prefix_def)
  have 1: "\<not> skip_keyword ''-a5'' ''-a'' (Some (0::int))"
    using keyword_matching [where keyword = "''-a''" and arg = "''-a5''"
        and pResult = "Some (0::int)", THEN conjunct2, THEN conjunct1] p
    by simp
  then have 0: "spec_matches ''-a5'' ''-a'' (Some (0::int))"
    using keyword_matching [where keyword = "''-a''" and arg = "''-a5''"
        and pResult = "Some (0::int)", THEN conjunct1]
    by simp
  have 2: "skip_keyword ''-abbrev5'' ''-abbrev'' (Some (0::int))"
    using keyword_matching [where keyword = "''-abbrev''" and arg = "''-abbrev5''"
        and pResult = "Some (0::int)", THEN conjunct2, THEN conjunct2, THEN conjunct1]
    by simp
  have 3: "skip_keyword ''-a5'' ''-a'' (None :: int option)"
    using keyword_matching [where keyword = "''-a''" and arg = "''-a5''"
        and pResult = "None :: int option", THEN conjunct2, THEN conjunct2, THEN conjunct1]
    by simp
  have sp: "isspace CHR '' ''" by (simp add: isspace_def)
  have "keyword_list (CHR '' '' # ''-b -c -a'') = [''-b'', ''-c'', ''-a'']"
    using keyword_matching [where ws = "[''-b'', ''-c'', ''-a'']",
        THEN conjunct2, THEN conjunct2, THEN conjunct2, THEN conjunct2,
        THEN conjunct2, THEN conjunct2, THEN conjunct2]
    by (simp add: isspace_def)
  moreover have "keyword_list (CHR '' '' # ''-b -c -a'') = keyword_list ''-b -c -a''"
    using keyword_matching [where sep = "CHR '' ''" and s = "''-b -c -a''",
        THEN conjunct2, THEN conjunct2, THEN conjunct2, THEN conjunct2,
        THEN conjunct2, THEN conjunct1] sp
    by simp
  ultimately have k1: "keyword_list ''-b -c -a'' = [''-b'', ''-c'', ''-a'']"
    by simp
  have "keyword_list (CHR '' '' # ''-b -a -'') = [''-b'', ''-a'', ''-'']"
    using keyword_matching [where ws = "[''-b'', ''-a'', ''-'']",
        THEN conjunct2, THEN conjunct2, THEN conjunct2, THEN conjunct2,
        THEN conjunct2, THEN conjunct2, THEN conjunct2]
    by (simp add: isspace_def)
  moreover have "keyword_list (CHR '' '' # ''-b -a -'') = keyword_list ''-b -a -''"
    using keyword_matching [where sep = "CHR '' ''" and s = "''-b -a -''",
        THEN conjunct2, THEN conjunct2, THEN conjunct2, THEN conjunct2,
        THEN conjunct2, THEN conjunct1] sp
    by simp
  ultimately have k2: "keyword_list ''-b -a -'' = [''-b'', ''-a'', ''-'']"
    by simp
  have w: "''-b'' \<noteq> [] \<and> (\<forall>c\<in>set ''-b''. \<not> isspace c)"
    "''-'' \<noteq> [] \<and> (\<forall>c\<in>set ''-''. \<not> isspace c)"
    "''-a'' \<noteq> [] \<and> (\<forall>c\<in>set ''-a''. \<not> isspace c)"
    by (simp_all add: isspace_def)
  have k3: "keyword_list ''-b - -a'' = [''-b'', ''-'', ''-a'']"
    using keyword_matching [where w = "''-b''" and sep = "CHR '' ''" and s = "''- -a''" and ws = "[]", THEN conjunct2, THEN conjunct2, THEN conjunct2, THEN conjunct2]
      keyword_matching [where w = "''-''" and sep = "CHR '' ''" and s = "''-a''" and ws = "[]", THEN conjunct2, THEN conjunct2, THEN conjunct2, THEN conjunct2]
      keyword_matching [where w = "''-a''" and sep = "CHR '' ''" and s = "[]" and ws = "[]", THEN conjunct2, THEN conjunct2, THEN conjunct2, THEN conjunct2] w sp
    by simp
  have na: "names_asserted ''-b -c -a''" "names_asserted ''-b -a -''"
    "names_asserted ''-b - -a''" "names_asserted ''-abbrev -a''"
    by (simp_all add: names_asserted_def)
  have 4: "getOption int_value [''-a5''] 0 ''-b -c -a'' (Some 0) False = Inr (True, 0, Some 5)"
    using keyword_matching [where names = "''-b -c -a''" and argv = "[''-a5'']" and i = 0
        and pResult = "Some (0::int)" and T = int_value and f = False,
        THEN conjunct2, THEN conjunct2, THEN conjunct2, THEN conjunct1]
    by (simp add: na k1 cursor_at_end_def spec_matches_def prefix_def process_keyword_def
        store_value_def int_value_def assign_string_generic_def extract_int_5)
  have 5: "getOption int_value [''-a5''] 0 ''-b -a -'' (Some 0) False = Inr (True, 0, Some 5)"
    using keyword_matching [where names = "''-b -a -''" and argv = "[''-a5'']" and i = 0
        and pResult = "Some (0::int)" and T = int_value and f = False,
        THEN conjunct2, THEN conjunct2, THEN conjunct2, THEN conjunct1]
    by (simp add: na k2 cursor_at_end_def spec_matches_def prefix_def process_keyword_def
        store_value_def int_value_def assign_string_generic_def extract_int_5)
  have e: "extract_int ''a5'' = None"
    by (simp add: extract_int_def isspace_def isdigit_def)
  have 6: "getOption int_value [''-a5''] 0 ''-b - -a'' (Some 0) False = Inr (False, 0, Some 0)"
    using keyword_matching [where names = "''-b - -a''" and argv = "[''-a5'']" and i = 0
        and pResult = "Some (0::int)" and T = int_value and f = False,
        THEN conjunct2, THEN conjunct2, THEN conjunct2, THEN conjunct1]
    by (simp add: na k3 cursor_at_end_def spec_matches_def prefix_def process_keyword_def
        store_value_def int_value_def assign_string_generic_def e)
  have kw: "keyword_list ''-abbrev -a'' = [''-abbrev'', ''-a'']" by code_simp
  have 7: "getOption int_value [''-abbrev'', ''5''] 0 ''-a -abbrev'' (Some 0) False
       = Inr (False, 0, Some 0)"
    using keyword_matching [where names = "''-a -abbrev''" and argv = "[''-abbrev'', ''5'']"
        and i = 0 and pResult = "Some (0::int)" and T = int_value and f = False,
        THEN conjunct2, THEN conjunct2, THEN conjunct2, THEN conjunct1]
    by (simp add: names_asserted_a_abbrev keyword_list_a_abbrev cursor_at_end_def
        spec_matches_def prefix_def process_keyword_def store_value_def int_value_def
        assign_string_generic_def extract_int_def isspace_def isdigit_def)
  have 8: "getOption int_value [''-abbrev'', ''5''] 0 ''-abbrev -a'' (Some 0) False
       = Inr (True, 1, Some 5)"
    using keyword_matching [where names = "''-abbrev -a''" and argv = "[''-abbrev'', ''5'']"
        and i = 0 and pResult = "Some (0::int)" and T = int_value and f = False,
        THEN conjunct2, THEN conjunct2, THEN conjunct2, THEN conjunct1]
    by (simp add: na kw cursor_at_end_def
        spec_matches_def prefix_def process_keyword_def store_value_def int_value_def
        assign_string_generic_def extract_int_5)
  have 9: "getOption int_value [''-b''] 0 ''-a -abbrev'' (Some 0) False = Inr (False, 0, Some 0)"
    using keyword_matching [where names = "''-a -abbrev''" and argv = "[''-b'']"
        and i = 0 and pResult = "Some (0::int)" and T = int_value and f = False,
        THEN conjunct2, THEN conjunct2, THEN conjunct2, THEN conjunct1]
    by (simp add: names_asserted_a_abbrev keyword_list_a_abbrev cursor_at_end_def
        spec_matches_def prefix_def)
  from p 0 1 2 3 k1 k2 k3 4 5 6 7 8 9 show ?thesis by simp
qed

subsection \<open>Dangling value\<close>

text \<open>
  Claim C6: when the matching keyword is equal to the current token, a slot was
  supplied and no further token exists, the call returns \<open>fValueOptional\<close>, with the
  cursor back at the option token and the slot untouched.
\<close>

theorem dangling_value:
  assumes "names_asserted names" and "\<not> cursor_at_end i argv"
    and "matched_keyword (argv ! nat i) (keyword_list names) (Some old) = Some (argv ! nat i)"
    and "cursor_at_end (i + 1) argv"
  shows "getOption T argv i names (Some old) fValueOptional = Inr (fValueOptional, i, Some old)"
  using getOption_matched [OF assms(1-3), of T fValueOptional] assms(4)
  by (simp add: process_keyword_def)

text \<open>
  Claim C6 with spelling \<open>-a\<close>, an integer slot and the single token \<open>-a\<close>: true for
  an optional value, false for a mandatory one.
\<close>

theorem dangling_value_witness:
  "names_asserted ''-a'' \<and> \<not> cursor_at_end 0 [''-a'']
   \<and> matched_keyword ([''-a''] ! nat 0) (keyword_list ''-a'') (Some (7::int)) = Some ([''-a''] ! nat 0)
   \<and> cursor_at_end (0 + 1) [''-a'']
   \<and> getOption int_value [''-a''] 0 ''-a'' (Some 7) True = Inr (True, 0, Some 7)
   \<and> getOption int_value [''-a''] 0 ''-a'' (Some 7) False = Inr (False, 0, Some 7)"
proof -
  have 1: "names_asserted ''-a''" by (rule names_asserted_a)
  have 2: "\<not> cursor_at_end 0 [''-a'']" by (simp add: cursor_at_end_def)
  have 3: "matched_keyword ([''-a''] ! nat 0) (keyword_list ''-a'') (Some (7::int))
      = Some ([''-a''] ! nat 0)"
    by (simp add: matched_keyword_def keyword_list_a skip_keyword_def compare_is_0_def)
  have 4: "cursor_at_end (0 + 1) [''-a'']" by (simp add: cursor_at_end_def)
  from 1 2 3 4 dangling_value [OF 1 2 3 4, of int_value True]
    dangling_value [OF 1 2 3 4, of int_value False]
  show ?thesis by simp
qed

subsection \<open>Separate form with an unparseable value\<close>

text \<open>
  Claim C7: when the matching keyword is equal to the current token, the next token
  exists and does not convert to the non-string type of the slot, the call returns
  \<open>fValueOptional\<close>, with the cursor back at the option token and the slot untouched.
\<close>

theorem separate_unparseable_value:
  assumes "names_asserted names" and "\<not> cursor_at_end i argv"
    and "matched_keyword (argv ! nat i) (keyword_list names) (Some old) = Some (argv ! nat i)"
    and "\<not> cursor_at_end (i + 1) argv"
    and "assign_string T = assign_string_generic"
    and "read_value T (argv ! nat (i + 1)) = None"
  shows "getOption T argv i names (Some old) fValueOptional = Inr (fValueOptional, i, Some old)"
  using getOption_matched [OF assms(1-3), of T fValueOptional] assms(4-6)
  by (simp add: process_keyword_def store_value_def assign_string_generic_def)

text \<open>
  Claim C7 with the tokens \<open>-a\<close>, \<open>notanumber\<close>, an integer slot and a mandatory
  value: the call fails with the cursor at 0.
\<close>

theorem separate_unparseable_value_witness:
  "names_asserted ''-a'' \<and> \<not> cursor_at_end 0 [''-a'', ''notanumber'']
   \<and> matched_keyword ([''-a'', ''notanumber''] ! nat 0) (keyword_list ''-a'') (Some (7::int))
       = Some ([''-a'', ''notanumber''] ! nat 0)
   \<and> \<not> cursor_at_end (0 + 1) [''-a'', ''notanumber'']
   \<and> assign_string int_value = assign_string_generic
   \<and> read_value int_value ([''-a'', ''notanumber''] ! nat (0 + 1)) = None
   \<and> getOption int_value [''-a'', ''notanumber''] 0 ''-a'' (Some 7) False
       = Inr (False, 0, Some 7)"
proof -
  have 1: "names_asserted ''-a''" by (rule names_asserted_a)
  have 2: "\<not> cursor_at_end 0 [''-a'', ''notanumber'']" by (simp add: cursor_at_end_def)
  have 3: "matched_keyword ([''-a'', ''notanumber''] ! nat 0) (keyword_list ''-a'') (Some (7::int))
       = Some ([''-a'', ''notanumber''] ! nat 0)"
    by (simp add: matched_keyword_def keyword_list_a skip_keyword_def compare_is_0_def)
  have 4: "\<not> cursor_at_end (0 + 1) [''-a'', ''notanumber'']" by (simp add: cursor_at_end_def)
  have 5: "assign_string int_value = assign_string_generic" by (simp add: int_value_def)
  have 6: "read_value int_value ([''-a'', ''notanumber''] ! nat (0 + 1)) = None"
    by (simp add: int_value_def extract_int_notanumber)
  from 1 2 3 4 5 6 separate_unparseable_value [OF 1 2 3 4 5 6, of False]
  show ?thesis by simp
qed

subsection \<open>Presence flag\<close>

text \<open>
  Claim C8: when no slot is supplied and the current token is equal to one of the
  candidates, the call returns true and leaves the cursor on the flag token.
\<close>

theorem presence_flag:
  assumes "names_asserted names" and "\<not> cursor_at_end i argv"
    and "argv ! nat i \<in> set (keyword_list names)"
  shows "getOption T argv i names None fValueOptional = Inr (True, i, None)"
proof -
  have "find (\<lambda>k. argv ! nat i = k) (keyword_list names) = Some (argv ! nat i)"
    using assms(3) by (rule find_equal_member)
  then have "matched_keyword (argv ! nat i) (keyword_list names) (None :: 'a option)
      = Some (argv ! nat i)"
    by (simp add: matched_keyword_def not_skip_keyword)
  from getOption_matched [OF assms(1,2) this, of T fValueOptional]
  show ?thesis by (simp add: process_keyword_def)
qed

text \<open>
  Claim C8 with spelling \<open>-a\<close> and the tokens \<open>-a\<close>, \<open>-b\<close>.
\<close>

theorem presence_flag_witness:
  "names_asserted ''-a'' \<and> \<not> cursor_at_end 0 [''-a'', ''-b'']
   \<and> [''-a'', ''-b''] ! nat 0 \<in> set (keyword_list ''-a'')
   \<and> getOption int_value [''-a'', ''-b''] 0 ''-a'' None False = Inr (True, 0, None)"
proof -
  have 1: "names_asserted ''-a''" by (rule names_asserted_a)
  have 2: "\<not> cursor_at_end 0 [''-a'', ''-b'']" by (simp add: cursor_at_end_def)
  have 3: "[''-a'', ''-b''] ! nat 0 \<in> set (keyword_list ''-a'')" by (simp add: keyword_list_a)
  from 1 2 3 presence_flag [OF 1 2 3, of int_value False]
  show ?thesis by simp
qed

subsection \<open>Version comparison\<close>

text \<open>
  Claim C9 states that \<open>operator<\<close> and \<open>operator<=\<close> of \<open>SemanticVersion\<close> are the
  strict and the reflexive lexicographic order on (major, minor, patch). The operators
  test the three fields one after the other without stopping at a field that already
  decides: 2.0.0 is less than 1.1.0 for \<open>operator<\<close> although the lexicographic order
  says it is not, and 1.1.0 is not below 2.0.0 for \<open>operator<=\<close> although the
  lexicographic order says it is.
\<close>

theorem version_comparison_not_lexicographic:
  "sv_less \<lparr>major = 2, minor = 0, patch = 0\<rparr> \<lparr>major = 1, minor = 1, patch = 0\<rparr>
   \<and> \<not> lex_less \<lparr>major = 2, minor = 0, patch = 0\<rparr> \<lparr>major = 1, minor = 1, patch = 0\<rparr>
   \<and> \<not> sv_less_eq \<lparr>major = 1, minor = 1, patch = 0\<rparr> \<lparr>major = 2, minor = 0, patch = 0\<rparr>
   \<and> lex_less_eq \<lparr>major = 1, minor = 1, patch = 0\<rparr> \<lparr>major = 2, minor = 0, patch = 0\<rparr>"
  by (simp add: sv_less_def sv_less_eq_def lex_less_def lex_less_eq_def)

subsection \<open>Trailing characters of a value\<close>

text \<open>
  Claim C10: for a slot of a non-string type, a value text from which the extraction
  reads a value is accepted whatever the extraction leaves unread: the value is stored
  and the call returns true, in the combined and in the separate form. For an integer
  slot, a text that converts still converts to the same number when a character that
  is not a digit, and anything after it, is appended. So \<open>-a5x\<close>, and \<open>-a\<close> followed
  by \<open>5x\<close>, succeed with 5 in the slot.
\<close>

theorem trailing_characters_discarded:
  "(names_asserted names \<and> \<not> cursor_at_end i argv
      \<and> matched_keyword (argv ! nat i) (keyword_list names) (Some old) = Some kw
      \<and> assign_string T = assign_string_generic \<longrightarrow>
      (length kw < length (argv ! nat i)
         \<and> read_value T (drop (length kw) (argv ! nat i)) = Some (v, unread) \<longrightarrow>
       getOption T argv i names (Some old) f = Inr (True, i, Some v))
      \<and> (kw = argv ! nat i \<and> \<not> cursor_at_end (i + 1) argv
         \<and> read_value T (argv ! nat (i + 1)) = Some (v, unread) \<longrightarrow>
       getOption T argv i names (Some old) f = Inr (True, i + 1, Some v)))
   \<and> (extract_int s = Some (n, []) \<and> \<not> isdigit c \<longrightarrow>
       extract_int (s @ c # cs) = Some (n, c # cs))
   \<and> getOption int_value [''-a5x''] 0 ''-a'' (Some old') f = Inr (True, 0, Some 5)
   \<and> getOption int_value [''-a'', ''5x''] 0 ''-a'' (Some old') f = Inr (True, 1, Some 5)"
proof (intro conjI impI)
  assume a: "names_asserted names \<and> \<not> cursor_at_end i argv
      \<and> matched_keyword (argv ! nat i) (keyword_list names) (Some old) = Some kw
      \<and> assign_string T = assign_string_generic"
  then have p: "process_keyword T argv i (argv ! nat i) kw (Some old) f
           = Return (getOption T argv i names (Some old) f)"
    by (simp add: getOption_matched)
  {
    assume "length kw < length (argv ! nat i)
         \<and> read_value T (drop (length kw) (argv ! nat i)) = Some (v, unread)"
    with a p show "getOption T argv i names (Some old) f = Inr (True, i, Some v)"
      by (simp add: process_keyword_def store_value_def assign_string_generic_def)
  }
  {
    assume "kw = argv ! nat i \<and> \<not> cursor_at_end (i + 1) argv
         \<and> read_value T (argv ! nat (i + 1)) = Some (v, unread)"
    with a p show "getOption T argv i names (Some old) f = Inr (True, i + 1, Some v)"
      by (simp add: process_keyword_def store_value_def assign_string_generic_def)
  }
next
  assume "extract_int s = Some (n, []) \<and> \<not> isdigit c"
  then show "extract_int (s @ c # cs) = Some (n, c # cs)"
    by (simp add: extract_int_append)
next
  show "getOption int_value [''-a5x''] 0 ''-a'' (Some old') f = Inr (True, 0, Some 5)"
    by (simp add: getOption_unfold names_asserted_a keyword_list_a extract_int_5x)
next
  show "getOption int_value [''-a'', ''5x''] 0 ''-a'' (Some old') f = Inr (True, 1, Some 5)"
    by (simp add: getOption_unfold names_asserted_a keyword_list_a extract_int_5x)
qed

text \<open>
  Claim C10 at the tokens \<open>-a5x\<close> and \<open>-a\<close>, \<open>5x\<close>, and at the text \<open>5\<close> followed by
  \<open>xyz\<close>.
\<close>

theorem trailing_characters_discarded_witness:
  "getOption int_value [''-a5x''] 0 ''-a'' (Some 0) False = Inr (True, 0, Some 5)
   \<and> getOption int_value [''-a'', ''5x''] 0 ''-a'' (Some 0) False = Inr (True, 1, Some 5)
   \<and> extract_int ''5'' = Some (5, []) \<and> \<not> isdigit CHR ''x''
   \<and> extract_int (''5'' @ CHR ''x'' # ''yz'') = Some (5, CHR ''x'' # ''yz'')"
proof -
  have m1: "matched_keyword ([''-a5x''] ! nat 0) (keyword_list ''-a'') (Some (0::int))
      = Some ''-a''"
    by (simp add: matched_keyword_def keyword_list_a skip_keyword_def compare_is_0_def)
  have m2: "matched_keyword ([''-a'', ''5x''] ! nat 0) (keyword_list ''-a'') (Some (0::int))
      = Some ''-a''"
    by (simp add: matched_keyword_def keyword_list_a skip_keyword_def compare_is_0_def)
  have g: "assign_string int_value = assign_string_generic" by (simp add: int_value_def)
  have 1: "getOption int_value [''-a5x''] 0 ''-a'' (Some 0) False = Inr (True, 0, Some 5)"
    using trailing_characters_discarded [where names = "''-a''" and i = 0
        and argv = "[''-a5x'']" and old = 0 and kw = "''-a''" and T = int_value and f = False
        and v = 5 and unread = "''x''", THEN conjunct1] m1 g
    by (simp add: names_asserted_a cursor_at_end_def int_value_def extract_int_5x)
  have 2: "getOption int_value [''-a'', ''5x''] 0 ''-a'' (Some 0) False = Inr (True, 1, Some 5)"
    using trailing_characters_discarded [where names = "''-a''" and i = 0
        and argv = "[''-a'', ''5x'']" and old = 0 and kw = "''-a''" and T = int_value
        and f = False and v = 5 and unread = "''x''", THEN conjunct1] m2 g
    by (simp add: names_asserted_a cursor_at_end_def int_value_def extract_int_5x)
  have d: "\<not> isdigit CHR ''x''" by (simp add: isdigit_def)
  have 3: "extract_int (''5'' @ CHR ''x'' # ''yz'') = Some (5, CHR ''x'' # ''yz'')"
    using trailing_characters_discarded [where s = "''5''" and n = 5 and c = "CHR ''x''"
        and cs = "''yz''", THEN conjunct2, THEN conjunct1] extract_int_5 d
    by simp
  from 1 2 3 d extract_int_5 show ?thesis by simp
qed

end
